theory Spec2Isabelle
  imports Main "HOL-Library.AList"
begin

section \<open>Data model of the cache store (src/cache.ts)\<close>

text \<open>
  The module keeps one zustand state object with the fields \<^verbatim>\<open>stores\<close>,
  \<^verbatim>\<open>globalPolicy\<close> and \<^verbatim>\<open>_debugStatistics\<close>. The file holds two
  revisions of the module. The revision with the statistics counters (lines
  192-412) writes the state with \<^verbatim>\<open>set(produce(...))\<close> in \<^verbatim>\<open>invalidate\<close>
  and \<^verbatim>\<open>prune\<close>; the other revision (lines 1-191) deletes through the
  store object it has read. Operations of lines 1-191 that differ, or that
  call one that differs, carry the suffix \<open>_inplace\<close>;
  \<^verbatim>\<open>invalidateIfExpired\<close> exists only there.
  \<^verbatim>\<open>invalidateAll\<close>, \<^verbatim>\<open>invalidateAllOrThrow\<close>, \<^verbatim>\<open>invalidateAllStores\<close>,
  \<^verbatim>\<open>createStore\<close>, \<^verbatim>\<open>setValue\<close>, \<^verbatim>\<open>setGlobalPolicy\<close> and
  \<^verbatim>\<open>setStorePolicy\<close> are the same text in both.

  JavaScript objects used as dictionaries are association lists of their own
  properties, in property order. Numbers are integers: \<^verbatim>\<open>Date.now()\<close> is an
  integral number of milliseconds and is the parameter \<open>now\<close> of every
  operation that reads the clock; an expiry is taken to be integral too, and
  sums to lie where double arithmetic is exact (below \<open>2^53\<close>).
\<close>

datatype invalidation = Never | Always | OnExpiry

text \<open>
  Type annotations are erased at run time. A property of a policy object is
  absent, or present holding \<^verbatim>\<open>undefined\<close> (which \<^verbatim>\<open>Partial<Policy>\<close>
  allows: \<^verbatim>\<open>{expiry: undefined}\<close>), or present holding a value of its type.
  Reading it gives \<^verbatim>\<open>undefined\<close> in the first two cases. The same type
  serves for \<^verbatim>\<open>Policy\<close> and \<^verbatim>\<open>Partial<Policy>\<close>.
\<close>

datatype 'a field = Absent | Undefined | Value 'a

record Policy =
  invalidationPolicy :: "invalidation field"
  expiry :: "int field"
  pruneOnSessionStart :: "bool field"

text \<open>
  Cached values have type \<^verbatim>\<open>any\<close>. The model keeps the kinds of value that
  JavaScript's truthiness test tells apart; \<open>JObj\<close> stands for any object or
  array, named by a handle.
\<close>

datatype jsvalue = JUndefined | JNull | JBool bool | JNum int | JStr string | JObj nat

fun truthy :: "jsvalue \<Rightarrow> bool" where
  "truthy JUndefined = False"
| "truthy JNull = False"
| "truthy (JBool b) = b"
| "truthy (JNum n) = (n \<noteq> 0)"
| "truthy (JStr s) = (s \<noteq> [])"
| "truthy (JObj h) = True"

record Entry =
  val :: jsvalue
  assignedAt :: int

record Store =
  cached :: "(string \<times> Entry) list"
  policy :: Policy

record Statistics =
  hits :: nat
  misses :: nat
  invalidationsDueToExpiry :: nat

text \<open>
  immer freezes the tree a producer returns, so after the first
  \<^verbatim>\<open>set(produce(...))\<close> every object reachable from the state (the store
  table, each store, its entry table and its policy) is frozen, and stays so:
  a later producer returns frozen copies. Objects of the initial state and of
  a state read back from storage are not frozen. One flag records this.
\<close>

record CacheStore =
  stores :: "(string \<times> Store) list"
  globalPolicy :: Policy
  debugStatistics :: Statistics
  frozen :: bool

text \<open>
  What a call can end with other than a value: the two errors the module
  throws itself, and the \<^verbatim>\<open>TypeError\<close> of the language (a property read
  from \<^verbatim>\<open>undefined\<close>, or a write to a frozen object; the module is an ES
  module, so strict). \<open>NotModelled\<close> marks the two calls this embedding does
  not follow, because they write to objects outside the state: see
  \<^verbatim>\<open>setValue\<close> and \<^verbatim>\<open>setStorePolicy\<close> below. An outcome pairs the
  result of a call with the state after it.
\<close>

datatype error = StoreDoesNotExist string | PolicyIsNever string | TypeError | NotModelled

type_synonym 'a outcome = "(error + 'a) \<times> CacheStore"

definition initialState :: CacheStore where
  "initialState =
     \<lparr> stores = [],
       globalPolicy = \<lparr> invalidationPolicy = Value OnExpiry,
                        expiry = Value (60 * 60 * 1000),
                        pruneOnSessionStart = Value True \<rparr>,
       debugStatistics = \<lparr> hits = 0, misses = 0, invalidationsDueToExpiry = 0 \<rparr>,
       frozen = False \<rparr>"

definition emptyPolicy :: Policy where
  "emptyPolicy = \<lparr> invalidationPolicy = Absent, expiry = Absent, pruneOnSessionStart = Absent \<rparr>"

text \<open>
  Object spread \<^verbatim>\<open>{...base, ...override}\<close>: every own property of the
  override wins, also one that holds \<^verbatim>\<open>undefined\<close>.
\<close>

definition spread :: "Policy \<Rightarrow> Policy \<Rightarrow> Policy" where
  "spread base override =
     \<lparr> invalidationPolicy =
         (case invalidationPolicy override of Absent \<Rightarrow> invalidationPolicy base
          | Undefined \<Rightarrow> Undefined | Value v \<Rightarrow> Value v),
       expiry =
         (case expiry override of Absent \<Rightarrow> expiry base
          | Undefined \<Rightarrow> Undefined | Value v \<Rightarrow> Value v),
       pruneOnSessionStart =
         (case pruneOnSessionStart override of Absent \<Rightarrow> pruneOnSessionStart base
          | Undefined \<Rightarrow> Undefined | Value v \<Rightarrow> Value v) \<rparr>"

fun has_value :: "'a field \<Rightarrow> bool" where
  "has_value (Value v) = True"
| "has_value Absent = False"
| "has_value Undefined = False"

definition complete :: "Policy \<Rightarrow> bool" where
  "complete p \<longleftrightarrow>
     has_value (invalidationPolicy p) \<and> has_value (expiry p) \<and> has_value (pruneOnSessionStart p)"

section \<open>Property lookup\<close>

text \<open>
  \<^verbatim>\<open>get().stores[store]\<close> and \<^verbatim>\<open>storeInstance.cached[key]\<close> are property
  reads on plain objects: a name that is not an own property is looked up on
  \<^verbatim>\<open>Object.prototype\<close>, whose twelve properties are functions or, for
  \<^verbatim>\<open>__proto__\<close>, the prototype object itself, all truthy and none with a
  property \<^verbatim>\<open>policy\<close>, \<^verbatim>\<open>cached\<close>, \<^verbatim>\<open>value\<close> or \<^verbatim>\<open>assignedAt\<close>.
\<close>

definition prototype_names :: "string list" where
  "prototype_names =
     [''constructor'', ''__defineGetter__'', ''__defineSetter__'', ''hasOwnProperty'',
      ''__lookupGetter__'', ''__lookupSetter__'', ''isPrototypeOf'', ''propertyIsEnumerable'',
      ''toString'', ''valueOf'', ''__proto__'', ''toLocaleString'']"

definition inherited :: "string \<Rightarrow> bool" where
  "inherited name \<longleftrightarrow> name \<in> set prototype_names"

datatype 'a lookup = Own 'a | Inherited | Missing

definition lookup_store :: "CacheStore \<Rightarrow> string \<Rightarrow> Store lookup" where
  "lookup_store s store =
     (case map_of (stores s) store of
        Some st \<Rightarrow> Own st
      | None \<Rightarrow> if inherited store then Inherited else Missing)"

text \<open>The truthiness of \<^verbatim>\<open>cached[key]\<close>: an entry object or an inherited property.\<close>

definition found :: "(string \<times> Entry) list \<Rightarrow> string \<Rightarrow> bool" where
  "found entries key \<longleftrightarrow> inherited key \<or> map_of entries key \<noteq> None"

section \<open>State updates\<close>

text \<open>
  \<^verbatim>\<open>set(produce(recipe))\<close> replaces the state by a modified copy, frozen, and
  leaves every object read before the call as it was. A direct assignment or
  \<^verbatim>\<open>delete\<close> through \<^verbatim>\<open>storeInstance\<close> changes the store object the
  current state holds, and throws when that object is frozen.
\<close>

definition produce :: "CacheStore \<Rightarrow> CacheStore" where
  "produce s = s\<lparr> frozen := True \<rparr>"

definition modify_store :: "string \<Rightarrow> (Store \<Rightarrow> Store) \<Rightarrow> CacheStore \<Rightarrow> CacheStore" where
  "modify_store store f s = s\<lparr> stores := AList.map_entry store f (stores s) \<rparr>"

definition delete_entry :: "string \<Rightarrow> string \<Rightarrow> CacheStore \<Rightarrow> CacheStore" where
  "delete_entry store key s =
     modify_store store (\<lambda>st. st\<lparr> cached := AList.delete key (cached st) \<rparr>) s"

definition clear_store :: "Store \<Rightarrow> Store" where
  "clear_store st = st\<lparr> cached := [] \<rparr>"

definition lookup_entry :: "CacheStore \<Rightarrow> string \<Rightarrow> string \<Rightarrow> Entry option" where
  "lookup_entry s store key =
     (case map_of (stores s) store of None \<Rightarrow> None
      | Some st \<Rightarrow> map_of (cached st) key)"

text \<open>
  \<^verbatim>\<open>assignedAt + expiry < Date.now()\<close>; the sum is \<^verbatim>\<open>NaN\<close>, and the
  comparison false, when the policy's expiry reads \<^verbatim>\<open>undefined\<close>.
\<close>

definition expired :: "int \<Rightarrow> Entry \<Rightarrow> Policy \<Rightarrow> bool" where
  "expired now e p =
     (case expiry p of Value x \<Rightarrow> assignedAt e + x < now | Absent \<Rightarrow> False | Undefined \<Rightarrow> False)"

text \<open>A loop whose body may throw: the first throw ends it.\<close>

fun for_each :: "('a \<Rightarrow> CacheStore \<Rightarrow> unit outcome) \<Rightarrow> 'a list \<Rightarrow> CacheStore \<Rightarrow> unit outcome" where
  "for_each body [] s = (Inr (), s)"
| "for_each body (x # xs) s =
     (case body x s of
        (Inl e, s') \<Rightarrow> (Inl e, s')
      | (Inr u, s') \<Rightarrow> for_each body xs s')"

section \<open>Operations of lines 192-412\<close>

text \<open>
  In every operation a store name that is only an inherited property gives a
  function (or the prototype object) as \<^verbatim>\<open>storeInstance\<close>: it passes the
  test \<^verbatim>\<open>!storeInstance\<close>, and the next read, \<^verbatim>\<open>storeInstance.cached[key]\<close>
  or \<^verbatim>\<open>storeInstance.policy.invalidationPolicy\<close>, throws.
\<close>

definition invalidate :: "string \<Rightarrow> string \<Rightarrow> CacheStore \<Rightarrow> bool outcome" where
  "invalidate store key s =
     (case lookup_store s store of
        Missing \<Rightarrow> (Inr False, s)
      | Inherited \<Rightarrow> (Inl TypeError, s)
      | Own storeInstance \<Rightarrow>
          if \<not> found (cached storeInstance) key then (Inr False, s)
          else if invalidationPolicy (policy storeInstance) = Value Never then (Inr False, s)
          else (Inr True, produce (delete_entry store key s)))"

text \<open>\<^verbatim>\<open>storeInstance.cached = {}\<close> is a direct assignment to the store object.\<close>

definition invalidateAll :: "string \<Rightarrow> CacheStore \<Rightarrow> bool outcome" where
  "invalidateAll store s =
     (case lookup_store s store of
        Missing \<Rightarrow> (Inr False, s)
      | Inherited \<Rightarrow> (Inl TypeError, s)
      | Own storeInstance \<Rightarrow>
          if invalidationPolicy (policy storeInstance) = Value Never then (Inr False, s)
          else if frozen s then (Inl TypeError, s)
          else (Inr True, modify_store store clear_store s))"

definition invalidateAllOrThrow :: "string \<Rightarrow> CacheStore \<Rightarrow> unit outcome" where
  "invalidateAllOrThrow store s =
     (case lookup_store s store of
        Missing \<Rightarrow> (Inl (StoreDoesNotExist store), s)
      | Inherited \<Rightarrow> (Inl TypeError, s)
      | Own storeInstance \<Rightarrow>
          if invalidationPolicy (policy storeInstance) = Value Never
          then (Inl (PolicyIsNever store), s)
          else if frozen s then (Inl TypeError, s)
          else (Inr (), modify_store store clear_store s))"

definition clear_one :: "string \<Rightarrow> CacheStore \<Rightarrow> unit outcome" where
  "clear_one store s =
     (if frozen s then (Inl TypeError, s) else (Inr (), modify_store store clear_store s))"

definition invalidateAllStores :: "CacheStore \<Rightarrow> unit outcome" where
  "invalidateAllStores s = for_each clear_one (map fst (stores s)) s"

definition prune :: "int \<Rightarrow> string \<Rightarrow> string \<Rightarrow> CacheStore \<Rightarrow> unit outcome" where
  "prune now store key s =
     (case lookup_store s store of
        Missing \<Rightarrow> (Inr (), s)
      | Inherited \<Rightarrow> (Inl TypeError, s)
      | Own storeInstance \<Rightarrow>
          if invalidationPolicy (policy storeInstance) \<noteq> Value OnExpiry then (Inr (), s)
          else (case map_of (cached storeInstance) key of
                  None \<Rightarrow> (Inr (), s)
                | Some e \<Rightarrow>
                    if expired now e (policy storeInstance)
                    then (Inr (), produce (delete_entry store key s))
                    else (Inr (), s)))"

text \<open>
  In \<^verbatim>\<open>prune\<close> a key that is only inherited passes the test
  \<^verbatim>\<open>!storeInstance.cached[key]\<close>, but its \<^verbatim>\<open>assignedAt\<close> is
  \<^verbatim>\<open>undefined\<close> and the comparison false: nothing happens, as for an absent
  key.

  The loop of \<^verbatim>\<open>pruneAll\<close> runs over the keys of the store object read
  before the loop; each \<^verbatim>\<open>prune\<close> reads the current state again. For a
  store name that is only inherited, \<^verbatim>\<open>storeInstance.cached\<close> is
  \<^verbatim>\<open>undefined\<close> and the loop has nothing to run over.
\<close>

definition pruneAll :: "int \<Rightarrow> string \<Rightarrow> CacheStore \<Rightarrow> unit outcome" where
  "pruneAll now store s =
     (case lookup_store s store of
        Missing \<Rightarrow> (Inr (), s)
      | Inherited \<Rightarrow> (Inr (), s)
      | Own storeInstance \<Rightarrow>
          for_each (\<lambda>key. prune now store key) (map fst (cached storeInstance)) s)"

definition pruneAllStores :: "int \<Rightarrow> CacheStore \<Rightarrow> unit outcome" where
  "pruneAllStores now s = for_each (\<lambda>store. pruneAll now store) (map fst (stores s)) s"

definition createStore :: "string \<Rightarrow> Policy \<Rightarrow> CacheStore \<Rightarrow> CacheStore" where
  "createStore store pol s =
     (case lookup_store s store of
        Missing \<Rightarrow>
          produce (s\<lparr> stores :=
                        AList.update store
                          \<lparr> cached = [], policy = spread (globalPolicy s) pol \<rparr> (stores s) \<rparr>)
      | Inherited \<Rightarrow> s
      | Own storeInstance \<Rightarrow> s)"

definition incrementHits :: "CacheStore \<Rightarrow> CacheStore" where
  "incrementHits s =
     produce
       (s\<lparr> debugStatistics := (debugStatistics s)\<lparr> hits := hits (debugStatistics s) + 1 \<rparr> \<rparr>)"

definition incrementMisses :: "CacheStore \<Rightarrow> CacheStore" where
  "incrementMisses s =
     produce
       (s\<lparr> debugStatistics := (debugStatistics s)\<lparr> misses := misses (debugStatistics s) + 1 \<rparr> \<rparr>)"

text \<open>
  \<^verbatim>\<open>getValue\<close> reads \<^verbatim>\<open>storeInstance\<close> first, calls \<^verbatim>\<open>prune\<close>, and
  then reads the value through \<^verbatim>\<open>storeInstance\<close>: the object from before
  the prune, which the \<^verbatim>\<open>set(produce(...))\<close> inside \<^verbatim>\<open>prune\<close> has not
  changed. A missing store is created and \<^verbatim>\<open>null\<close> returned at once. A key
  that is only inherited reads a function, whose \<^verbatim>\<open>value\<close> is
  \<^verbatim>\<open>undefined\<close>.
\<close>

definition getValue :: "int \<Rightarrow> string \<Rightarrow> string \<Rightarrow> CacheStore \<Rightarrow> jsvalue outcome" where
  "getValue now store key s =
     (case lookup_store s store of
        Missing \<Rightarrow> (Inr JNull, createStore store emptyPolicy s)
      | Inherited \<Rightarrow> (Inl TypeError, s)
      | Own storeInstance \<Rightarrow>
          (case prune now store key s of
             (Inl e, s1) \<Rightarrow> (Inl e, s1)
           | (Inr u, s1) \<Rightarrow>
               (let v = (case map_of (cached storeInstance) key of
                           None \<Rightarrow> JUndefined
                         | Some e \<Rightarrow> val e)
                in (Inr v, if truthy v then incrementHits s1 else incrementMisses s1))))"

text \<open>
  \<^verbatim>\<open>state.stores[store].cached[key] = {...}\<close> inside the producer. For the
  key \<^verbatim>\<open>"__proto__"\<close> the assignment reaches the prototype setter instead of
  making an entry; what follows from that is not modelled.
\<close>

definition write_entry :: "int \<Rightarrow> string \<Rightarrow> string \<Rightarrow> jsvalue \<Rightarrow> CacheStore \<Rightarrow> unit outcome" where
  "write_entry now store key v s =
     (if key = ''__proto__'' then (Inl NotModelled, s)
      else (Inr (),
            produce
              (modify_store store
                 (\<lambda>st. st\<lparr> cached :=
                             AList.update key \<lparr> val = v, assignedAt = now \<rparr> (cached st) \<rparr>)
                 s)))"

definition setValue :: "int \<Rightarrow> string \<Rightarrow> string \<Rightarrow> jsvalue \<Rightarrow> CacheStore \<Rightarrow> unit outcome" where
  "setValue now store key v s =
     (case lookup_store s store of
        Missing \<Rightarrow> write_entry now store key v (createStore store emptyPolicy s)
      | Inherited \<Rightarrow> (Inl TypeError, s)
      | Own storeInstance \<Rightarrow> write_entry now store key v s)"

definition setGlobalPolicy :: "Policy \<Rightarrow> CacheStore \<Rightarrow> CacheStore" where
  "setGlobalPolicy pol s = produce (s\<lparr> globalPolicy := spread (globalPolicy s) pol \<rparr>)"

text \<open>
  \<^verbatim>\<open>setStorePolicy\<close> reads \<^verbatim>\<open>state.stores[store].policy\<close> with no test:
  on a missing store the recipe throws and the state stays as it was. For a
  store name that is only inherited the assignment puts a property
  \<^verbatim>\<open>policy\<close> on a built-in object, which later lookups would see; the
  embedding does not follow that.
\<close>

definition setStorePolicy :: "string \<Rightarrow> Policy \<Rightarrow> CacheStore \<Rightarrow> unit outcome" where
  "setStorePolicy store pol s =
     (case lookup_store s store of
        Missing \<Rightarrow> (Inl TypeError, s)
      | Inherited \<Rightarrow> (Inl NotModelled, s)
      | Own storeInstance \<Rightarrow>
          (Inr (),
           produce (modify_store store (\<lambda>st. st\<lparr> policy := spread (policy st) pol \<rparr>) s)))"

section \<open>Operations of lines 1-191 that differ\<close>

text \<open>
  These delete with \<^verbatim>\<open>delete storeInstance.cached[key]\<close>. On a frozen entry
  table that throws when the key is an own property and does nothing when it
  is not.
\<close>

definition invalidate_inplace :: "string \<Rightarrow> string \<Rightarrow> CacheStore \<Rightarrow> bool outcome" where
  "invalidate_inplace store key s =
     (case lookup_store s store of
        Missing \<Rightarrow> (Inr False, s)
      | Inherited \<Rightarrow> (Inl TypeError, s)
      | Own storeInstance \<Rightarrow>
          if invalidationPolicy (policy storeInstance) = Value Never then (Inr False, s)
          else if frozen s \<and> map_of (cached storeInstance) key \<noteq> None then (Inl TypeError, s)
          else (Inr True, delete_entry store key s))"

definition invalidateIfExpired :: "int \<Rightarrow> string \<Rightarrow> string \<Rightarrow> CacheStore \<Rightarrow> bool outcome" where
  "invalidateIfExpired now store key s =
     (case lookup_store s store of
        Missing \<Rightarrow> (Inr False, s)
      | Inherited \<Rightarrow> (Inl TypeError, s)
      | Own storeInstance \<Rightarrow>
          if invalidationPolicy (policy storeInstance) = Value Never then (Inr False, s)
          else (case map_of (cached storeInstance) key of
                  None \<Rightarrow> (Inr False, s)
                | Some e \<Rightarrow>
                    if expired now e (policy storeInstance)
                    then (if frozen s then (Inl TypeError, s)
                          else (Inr True, delete_entry store key s))
                    else (Inr False, s)))"

definition prune_inplace :: "int \<Rightarrow> string \<Rightarrow> string \<Rightarrow> CacheStore \<Rightarrow> unit outcome" where
  "prune_inplace now store key s =
     (case lookup_store s store of
        Missing \<Rightarrow> (Inr (), s)
      | Inherited \<Rightarrow> (Inl TypeError, s)
      | Own storeInstance \<Rightarrow>
          if invalidationPolicy (policy storeInstance) \<noteq> Value OnExpiry then (Inr (), s)
          else (case map_of (cached storeInstance) key of
                  None \<Rightarrow> (Inr (), s)
                | Some e \<Rightarrow>
                    if expired now e (policy storeInstance)
                    then (if frozen s then (Inl TypeError, s)
                          else (Inr (), delete_entry store key s))
                    else (Inr (), s)))"

definition pruneAll_inplace :: "int \<Rightarrow> string \<Rightarrow> CacheStore \<Rightarrow> unit outcome" where
  "pruneAll_inplace now store s =
     (case lookup_store s store of
        Missing \<Rightarrow> (Inr (), s)
      | Inherited \<Rightarrow> (Inr (), s)
      | Own storeInstance \<Rightarrow>
          for_each (\<lambda>key. prune_inplace now store key) (map fst (cached storeInstance)) s)"

definition pruneAllStores_inplace :: "int \<Rightarrow> CacheStore \<Rightarrow> unit outcome" where
  "pruneAllStores_inplace now s =
     for_each (\<lambda>store. pruneAll_inplace now store) (map fst (stores s)) s"

text \<open>
  The \<^verbatim>\<open>getValue\<close> of lines 120-130 keeps no counters; after an in-place
  delete its read through \<^verbatim>\<open>storeInstance\<close> sees the deletion.
\<close>

definition getValue_inplace :: "int \<Rightarrow> string \<Rightarrow> string \<Rightarrow> CacheStore \<Rightarrow> jsvalue outcome" where
  "getValue_inplace now store key s =
     (case lookup_store s store of
        Missing \<Rightarrow> (Inr JNull, createStore store emptyPolicy s)
      | Inherited \<Rightarrow> (Inl TypeError, s)
      | Own storeInstance \<Rightarrow>
          (case prune_inplace now store key s of
             (Inl e, s1) \<Rightarrow> (Inl e, s1)
           | (Inr u, s1) \<Rightarrow>
               (case lookup_entry s1 store key of
                  None \<Rightarrow> (Inr JUndefined, s1)
                | Some e \<Rightarrow> (Inr (val e), s1))))"

section \<open>Sequences of calls\<close>

text \<open>
  Every operation of the \<^verbatim>\<open>CacheStore\<close> interface, of either revision, as
  a constructor. \<open>perform\<close> gives the state after the call, also when the call
  throws, and \<open>None\<close> for a call that is not modelled.
\<close>

datatype operation =
    Invalidate string string
  | InvalidateInplace string string
  | InvalidateIfExpired string string
  | InvalidateAll string
  | InvalidateAllOrThrow string
  | InvalidateAllStores
  | Prune string string
  | PruneInplace string string
  | PruneAll string
  | PruneAllInplace string
  | PruneAllStores
  | PruneAllStoresInplace
  | GetValue string string
  | GetValueInplace string string
  | CreateStore string Policy
  | SetValue string string jsvalue
  | SetGlobalPolicy Policy
  | SetStorePolicy string Policy
  | Debug
  | IncrementHits
  | IncrementMisses

definition settled :: "'a outcome \<Rightarrow> CacheStore option" where
  "settled r = (if fst r = Inl NotModelled then None else Some (snd r))"

fun perform :: "int \<Rightarrow> operation \<Rightarrow> CacheStore \<Rightarrow> CacheStore option" where
  "perform now (Invalidate store key) s = settled (invalidate store key s)"
| "perform now (InvalidateInplace store key) s = settled (invalidate_inplace store key s)"
| "perform now (InvalidateIfExpired store key) s = settled (invalidateIfExpired now store key s)"
| "perform now (InvalidateAll store) s = settled (invalidateAll store s)"
| "perform now (InvalidateAllOrThrow store) s = settled (invalidateAllOrThrow store s)"
| "perform now InvalidateAllStores s = settled (invalidateAllStores s)"
| "perform now (Prune store key) s = settled (prune now store key s)"
| "perform now (PruneInplace store key) s = settled (prune_inplace now store key s)"
| "perform now (PruneAll store) s = settled (pruneAll now store s)"
| "perform now (PruneAllInplace store) s = settled (pruneAll_inplace now store s)"
| "perform now PruneAllStores s = settled (pruneAllStores now s)"
| "perform now PruneAllStoresInplace s = settled (pruneAllStores_inplace now s)"
| "perform now (GetValue store key) s = settled (getValue now store key s)"
| "perform now (GetValueInplace store key) s = settled (getValue_inplace now store key s)"
| "perform now (CreateStore store pol) s = Some (createStore store pol s)"
| "perform now (SetValue store key v) s = settled (setValue now store key v s)"
| "perform now (SetGlobalPolicy pol) s = Some (setGlobalPolicy pol s)"
| "perform now (SetStorePolicy store pol) s = settled (setStorePolicy store pol s)"
| "perform now Debug s = Some s"
| "perform now IncrementHits s = Some (incrementHits s)"
| "perform now IncrementMisses s = Some (incrementMisses s)"

text \<open>A run is a list of calls, each with the clock reading at the time of the call.\<close>

fun run :: "(int \<times> operation) list \<Rightarrow> CacheStore \<Rightarrow> CacheStore option" where
  "run [] s = Some s"
| "run (c # calls) s =
     (case perform (fst c) (snd c) s of None \<Rightarrow> None | Some s' \<Rightarrow> run calls s')"

definition policies_complete :: "CacheStore \<Rightarrow> bool" where
  "policies_complete s \<longleftrightarrow>
     complete (globalPolicy s) \<and> list_all (\<lambda>p. complete (policy (snd p))) (stores s)"

text \<open>
  An override none of whose properties holds \<^verbatim>\<open>undefined\<close>, and a call
  that passes only such overrides and is not one of the two the embedding
  does not follow.
\<close>

fun no_undefined :: "'a field \<Rightarrow> bool" where
  "no_undefined Undefined = False"
| "no_undefined Absent = True"
| "no_undefined (Value v) = True"

definition defined_override :: "Policy \<Rightarrow> bool" where
  "defined_override p \<longleftrightarrow>
     no_undefined (invalidationPolicy p) \<and> no_undefined (expiry p)
     \<and> no_undefined (pruneOnSessionStart p)"

fun plain_call :: "operation \<Rightarrow> bool" where
  "plain_call (CreateStore store pol) = defined_override pol"
| "plain_call (SetGlobalPolicy pol) = defined_override pol"
| "plain_call (SetStorePolicy store pol) = (defined_override pol \<and> \<not> inherited store)"
| "plain_call (SetValue store key v) = (key \<noteq> ''__proto__'')"
| "plain_call call = True"

section \<open>Persistence and hydration\<close>

text \<open>
  Modelled from the spec: the \<^verbatim>\<open>persist\<close> middleware that writes the state
  to storage and reads it back is zustand's and is not in src/. The spec
  (sections 4.4 and 6) gives the fixed namespace \<^verbatim>\<open>"cache"\<close>, a structured
  record in durable storage, and its restoration at process start. What the
  record holds follows from the call the module makes (lines 240-241 and
  401-403): the middleware wraps the whole state object and is passed the
  option \<^verbatim>\<open>name\<close> only, so with no \<^verbatim>\<open>partialize\<close> option every data
  field of the state is stored, and lines 381-385 make
  \<^verbatim>\<open>_debugStatistics\<close> one of them. The record is JSON: the functions of the
  state are left out, and so is a property that holds \<^verbatim>\<open>undefined\<close>; cached
  values are taken to be JSON data, which a round trip gives back.
\<close>

record PersistedState =
  persistedStores :: "(string \<times> Store) list"
  persistedGlobalPolicy :: Policy
  persistedStatistics :: Statistics

text \<open>
  Modelled from the spec: the stored record is JSON, which has no
  \<^verbatim>\<open>undefined\<close>: a property holding it is not written, and is absent when
  the record is read back.
\<close>

fun json_field :: "'a field \<Rightarrow> 'a field" where
  "json_field Undefined = Absent"
| "json_field Absent = Absent"
| "json_field (Value v) = Value v"

definition json_policy :: "Policy \<Rightarrow> Policy" where
  "json_policy p =
     \<lparr> invalidationPolicy = json_field (invalidationPolicy p),
       expiry = json_field (expiry p),
       pruneOnSessionStart = json_field (pruneOnSessionStart p) \<rparr>"

definition json_store :: "Store \<Rightarrow> Store" where
  "json_store st = st\<lparr> policy := json_policy (policy st) \<rparr>"

text \<open>
  Modelled from the spec: the record the middleware writes for a state, every
  data field of it.
\<close>

definition serialize :: "CacheStore \<Rightarrow> PersistedState" where
  "serialize s =
     \<lparr> persistedStores = map (\<lambda>p. (fst p, json_store (snd p))) (stores s),
       persistedGlobalPolicy = json_policy (globalPolicy s),
       persistedStatistics = debugStatistics s \<rparr>"

text \<open>
  Modelled from the spec: hydration puts the fields of the stored record over
  those of the initial state; with nothing stored the initial state stays
  (spec section 4.4). The objects read back are new and not frozen.
\<close>

definition hydrate :: "PersistedState option \<Rightarrow> CacheStore" where
  "hydrate stored =
     (case stored of
        None \<Rightarrow> initialState
      | Some r \<Rightarrow>
          \<lparr> stores = persistedStores r,
            globalPolicy = persistedGlobalPolicy r,
            debugStatistics = persistedStatistics r,
            frozen = False \<rparr>)"

text \<open>
  The callback the module registers (lines 407-412): after hydration it prunes
  every store when the global policy asks for it. \<open>None\<close> is the callback's
  \<^verbatim>\<open>undefined\<close> state.
\<close>

definition onFinishHydration :: "int \<Rightarrow> CacheStore option \<Rightarrow> CacheStore option" where
  "onFinishHydration now state =
     (case state of
        None \<Rightarrow> None
      | Some s \<Rightarrow>
          if pruneOnSessionStart (globalPolicy s) = Value True
          then Some (snd (pruneAllStores now s))
          else Some s)"

text \<open>
  Modelled from the spec: a restart at time \<open>now\<close> of a session whose last
  state \<open>s\<close> was written to storage: hydration, then the callback.
\<close>

definition restart :: "int \<Rightarrow> CacheStore \<Rightarrow> CacheStore option" where
  "restart now s = onFinishHydration now (Some (hydrate (Some (serialize s))))"

section \<open>Example states\<close>

text \<open>
  The global policy gets \<^verbatim>\<open>expiry = 1000\<close>, the store \<^verbatim>\<open>"s"\<close> is created
  with an empty override, and \<^verbatim>\<open>setValue("s", "k", 42)\<close> runs at time 0.
\<close>

definition expiry_1000_state :: CacheStore where
  "expiry_1000_state =
     snd (setValue 0 ''s'' ''k'' (JNum 42)
            (createStore ''s'' emptyPolicy
               (setGlobalPolicy (emptyPolicy\<lparr> expiry := Value 1000 \<rparr>) initialState)))"

definition expiry_1000_store :: Store where
  "expiry_1000_store =
     \<lparr> cached = [(''k'', \<lparr> val = JNum 42, assignedAt = 0 \<rparr>)],
       policy = \<lparr> invalidationPolicy = Value OnExpiry, expiry = Value 1000,
                  pruneOnSessionStart = Value True \<rparr> \<rparr>"

text \<open>A store created with \<^verbatim>\<open>{invalidationPolicy: "never"}\<close> that holds one entry.\<close>

definition never_state :: CacheStore where
  "never_state =
     snd (setValue 0 ''n'' ''k'' (JNum 1)
            (createStore ''n'' (emptyPolicy\<lparr> invalidationPolicy := Value Never \<rparr>) initialState))"

definition never_store :: Store where
  "never_store =
     \<lparr> cached = [(''k'', \<lparr> val = JNum 1, assignedAt = 0 \<rparr>)],
       policy = \<lparr> invalidationPolicy = Value Never, expiry = Value (60 * 60 * 1000),
                  pruneOnSessionStart = Value True \<rparr> \<rparr>"

text \<open>The store \<^verbatim>\<open>"s"\<close> right after \<^verbatim>\<open>createStore("s", {})\<close>: no entries.\<close>

definition empty_store_state :: CacheStore where
  "empty_store_state = createStore ''s'' emptyPolicy initialState"

text \<open>The state after the read \<^verbatim>\<open>getValue("s", "k")\<close> at time 500.\<close>

definition after_first_read :: CacheStore where
  "after_first_read = snd (getValue 500 ''s'' ''k'' expiry_1000_state)"

text \<open>
  The state of the first example read back from storage, the callback not
  run: not frozen.
\<close>

definition reloaded_state :: CacheStore where
  "reloaded_state = hydrate (Some (serialize expiry_1000_state))"

text \<open>
  A run in which every policy is set through a partial override, one of them
  against a store that does not exist.
\<close>

definition partial_override_run :: "(int \<times> operation) list" where
  "partial_override_run =
     [(0, SetGlobalPolicy (emptyPolicy\<lparr> expiry := Value 1000 \<rparr>)),
      (1, CreateStore ''s'' (emptyPolicy\<lparr> invalidationPolicy := Value Never \<rparr>)),
      (2, SetStorePolicy ''s'' (emptyPolicy\<lparr> pruneOnSessionStart := Value False \<rparr>)),
      (3, SetStorePolicy ''t'' (emptyPolicy\<lparr> expiry := Value 5 \<rparr>)),
      (4, GetValue ''u'' ''k'')]"

text \<open>The override \<^verbatim>\<open>{expiry: undefined}\<close>.\<close>

definition undefined_expiry :: Policy where
  "undefined_expiry = emptyPolicy\<lparr> expiry := Undefined \<rparr>"

section \<open>Basic facts about state updates\<close>

lemmas operation_defs =
  invalidate_def invalidate_inplace_def invalidateIfExpired_def invalidateAll_def
  invalidateAllOrThrow_def invalidateAllStores_def clear_one_def prune_def prune_inplace_def
  pruneAll_def pruneAll_inplace_def pruneAllStores_def pruneAllStores_inplace_def
  getValue_def getValue_inplace_def createStore_def setValue_def write_entry_def
  setGlobalPolicy_def setStorePolicy_def incrementHits_def incrementMisses_def produce_def
  modify_store_def delete_entry_def clear_store_def lookup_entry_def lookup_store_def found_def
  inherited_def prototype_names_def expired_def spread_def emptyPolicy_def initialState_def

lemma expiry_1000_state_eq:
  "expiry_1000_state =
     \<lparr> stores = [(''s'', expiry_1000_store)],
       globalPolicy = \<lparr> invalidationPolicy = Value OnExpiry, expiry = Value 1000,
                        pruneOnSessionStart = Value True \<rparr>,
       debugStatistics = \<lparr> hits = 0, misses = 0, invalidationsDueToExpiry = 0 \<rparr>,
       frozen = True \<rparr>"
  by (simp add: expiry_1000_state_def expiry_1000_store_def operation_defs)

lemma never_state_eq:
  "never_state =
     \<lparr> stores = [(''n'', never_store)],
       globalPolicy = \<lparr> invalidationPolicy = Value OnExpiry, expiry = Value (60 * 60 * 1000),
                        pruneOnSessionStart = Value True \<rparr>,
       debugStatistics = \<lparr> hits = 0, misses = 0, invalidationsDueToExpiry = 0 \<rparr>,
       frozen = True \<rparr>"
  by (simp add: never_state_def never_store_def operation_defs)

lemma reloaded_state_eq: "reloaded_state = expiry_1000_state\<lparr> frozen := False \<rparr>"
  by (simp add: reloaded_state_def hydrate_def serialize_def json_store_def json_policy_def
        expiry_1000_state_eq expiry_1000_store_def)

lemma lookup_store_Own: "lookup_store s n = Own st \<longleftrightarrow> map_of (stores s) n = Some st"
  by (simp add: lookup_store_def split: option.splits)

lemma lookup_store_Missing:
  "lookup_store s n = Missing \<longleftrightarrow> map_of (stores s) n = None \<and> \<not> inherited n"
  by (simp add: lookup_store_def split: option.splits)

lemma lookup_store_Inherited:
  "lookup_store s n = Inherited \<longleftrightarrow> map_of (stores s) n = None \<and> inherited n"
  by (simp add: lookup_store_def split: option.splits)

lemma produce_frame:
  "stores (produce s) = stores s"
  "globalPolicy (produce s) = globalPolicy s"
  "debugStatistics (produce s) = debugStatistics s"
  "frozen (produce s)"
  by (simp_all add: produce_def)

lemma map_of_modify_store:
  "map_of (stores (modify_store n f s)) m =
     (if m = n then map_option f (map_of (stores s) n) else map_of (stores s) m)"
  by (simp add: modify_store_def AList.map_of_map_entry split: option.splits)

lemma keys_map_entry: "map fst (AList.map_entry k f xs) = map fst xs"
  by (induction xs) auto

lemma modify_store_frame:
  "globalPolicy (modify_store n f s) = globalPolicy s"
  "debugStatistics (modify_store n f s) = debugStatistics s"
  "frozen (modify_store n f s) = frozen s"
  "map fst (stores (modify_store n f s)) = map fst (stores s)"
  by (simp_all add: modify_store_def keys_map_entry)

lemma lookup_entry_produce: "lookup_entry (produce s) store key = lookup_entry s store key"
  by (simp add: lookup_entry_def produce_frame)

lemma lookup_entry_delete_entry:
  "lookup_entry (delete_entry store key s) store' key' =
     (if store' = store \<and> key' = key then None else lookup_entry s store' key')"
  by (auto simp: lookup_entry_def delete_entry_def map_of_modify_store AList.delete_conv'
      split: option.splits)

lemma delete_entry_frame:
  "globalPolicy (delete_entry store key s) = globalPolicy s"
  "debugStatistics (delete_entry store key s) = debugStatistics s"
  "frozen (delete_entry store key s) = frozen s"
  "map fst (stores (delete_entry store key s)) = map fst (stores s)"
  by (simp_all add: delete_entry_def modify_store_frame)

lemma delete_entry_other:
  "m \<noteq> n \<Longrightarrow> map_of (stores (delete_entry m k s)) n = map_of (stores s) n"
  by (simp add: delete_entry_def map_of_modify_store)

text \<open>What holds before a loop and is kept by its body holds after it.\<close>

lemma for_each_invariant:
  assumes "\<And>x t. P t \<Longrightarrow> P (snd (body x t))" and "P s"
  shows "P (snd (for_each body xs s))"
  using assms(2)
proof (induction xs arbitrary: s)
  case Nil
  then show ?case by simp
next
  case (Cons x xs)
  obtain r t where bx: "body x s = (r, t)" by (cases "body x s")
  have "P t" using assms(1) [OF Cons.prems, of x] bx by simp
  then show ?case
    using Cons.IH [of t] bx by (cases r) simp_all
qed

lemma for_each_error:
  assumes "\<And>x t. fst (body x t) \<noteq> Inl e"
  shows "fst (for_each body xs s) \<noteq> Inl e"
proof (induction xs arbitrary: s)
  case Nil
  then show ?case by simp
next
  case (Cons x xs)
  obtain r t where bx: "body x s = (r, t)" by (cases "body x s")
  show ?case
    using Cons.IH [of t] bx assms [of x s] by (cases r) auto
qed

lemma prune_frame:
  "globalPolicy (snd (prune now n k s)) = globalPolicy s"
  "debugStatistics (snd (prune now n k s)) = debugStatistics s"
  "map fst (stores (snd (prune now n k s))) = map fst (stores s)"
  by (simp_all add: prune_def delete_entry_frame produce_frame split: option.splits lookup.splits)

lemma prune_own_returns:
  "map_of (stores s) n = Some st \<Longrightarrow> fst (prune now n k s) = Inr ()"
  by (simp add: prune_def lookup_store_def split: option.splits)

section \<open>Pruning\<close>

text \<open>
  The \<^verbatim>\<open>prune\<close> of lines 285-300: for an entry that is present it removes
  the entry if and only if the policy is \<^verbatim>\<open>on-expiry\<close> and
  \<^verbatim>\<open>now - assignedAt > expiry\<close>, strictly, and otherwise leaves the state
  as it was.
\<close>

lemma prune_removes_iff:
  assumes "map_of (stores s) store = Some st"
    and "map_of (cached st) key = Some e"
    and "expiry (policy st) = Value x"
  shows "(lookup_entry (snd (prune now store key s)) store key = None
            \<longleftrightarrow> invalidationPolicy (policy st) = Value OnExpiry \<and> now - assignedAt e > x)
         \<and> (\<not> (invalidationPolicy (policy st) = Value OnExpiry \<and> now - assignedAt e > x)
              \<longrightarrow> prune now store key s = (Inr (), s))
         \<and> (invalidationPolicy (policy st) = Value OnExpiry \<and> now - assignedAt e > x
              \<longrightarrow> prune now store key s = (Inr (), produce (delete_entry store key s)))"
proof -
  let ?c = "invalidationPolicy (policy st) = Value OnExpiry \<and> now - assignedAt e > x"
  have eq: "prune now store key s
              = (if ?c then (Inr (), produce (delete_entry store key s)) else (Inr (), s))"
    using assms by (auto simp: prune_def expired_def lookup_store_def)
  have present: "lookup_entry s store key = Some e"
    using assms by (simp add: lookup_entry_def)
  show ?thesis
    using present by (simp add: eq lookup_entry_delete_entry lookup_entry_produce)
qed

text \<open>
  The \<^verbatim>\<open>prune\<close> of lines 94-105 does the same on a state that is not
  frozen.
\<close>

lemma prune_inplace_not_frozen:
  assumes "\<not> frozen s"
  shows "fst (prune_inplace now store key s) = fst (prune now store key s)"
    and "stores (snd (prune_inplace now store key s)) = stores (snd (prune now store key s))"
  using assms
  by (simp_all add: prune_inplace_def prune_def produce_frame split: lookup.splits option.splits)

text \<open>
  C7. \<^verbatim>\<open>prune(store, key)\<close> is to remove an entry whose age exceeds the
  expiry under the policy \<^verbatim>\<open>on-expiry\<close>. The \<^verbatim>\<open>prune\<close> of lines 94-105
  deletes with \<^verbatim>\<open>delete storeInstance.cached[key]\<close>. In the example state,
  written by \<^verbatim>\<open>createStore\<close> and \<^verbatim>\<open>setValue\<close> and so frozen, the entry
  \<^verbatim>\<open>"k"\<close> of time 0 has expired at time 1500, the policy is
  \<^verbatim>\<open>on-expiry\<close>, and the call throws \<^verbatim>\<open>TypeError\<close> and leaves the entry
  where it is. The \<^verbatim>\<open>prune\<close> of lines 285-300 removes it.
\<close>

theorem prune_inplace_throws_on_frozen_store:
  "frozen expiry_1000_state
   \<and> map_of (stores expiry_1000_state) ''s'' = Some expiry_1000_store
   \<and> invalidationPolicy (policy expiry_1000_store) = Value OnExpiry
   \<and> expiry (policy expiry_1000_store) = Value 1000
   \<and> lookup_entry expiry_1000_state ''s'' ''k'' = Some \<lparr> val = JNum 42, assignedAt = 0 \<rparr>
   \<and> prune_inplace 1500 ''s'' ''k'' expiry_1000_state = (Inl TypeError, expiry_1000_state)
   \<and> lookup_entry (snd (prune_inplace 1500 ''s'' ''k'' expiry_1000_state)) ''s'' ''k''
       = Some \<lparr> val = JNum 42, assignedAt = 0 \<rparr>
   \<and> fst (prune 1500 ''s'' ''k'' expiry_1000_state) = Inr ()
   \<and> lookup_entry (snd (prune 1500 ''s'' ''k'' expiry_1000_state)) ''s'' ''k'' = None"
  by (simp add: expiry_1000_state_eq expiry_1000_store_def operation_defs)

section \<open>Invalidating one entry\<close>

text \<open>
  The \<^verbatim>\<open>invalidate\<close> of lines 249-262 on a store of the state: it refuses,
  with the state unchanged, when the policy is \<^verbatim>\<open>never\<close> and when the key
  is neither an entry nor a name inherited from \<^verbatim>\<open>Object.prototype\<close>;
  for an entry under another policy it deletes that one key and returns true.
\<close>

lemma invalidate_refuses:
  assumes "map_of (stores s) store = Some st"
    and "invalidationPolicy (policy st) = Value Never
         \<or> (map_of (cached st) key = None \<and> \<not> inherited key)"
  shows "invalidate store key s = (Inr False, s)"
  using assms by (auto simp: invalidate_def lookup_store_def found_def)

lemma invalidate_missing_store:
  "map_of (stores s) store = None \<Longrightarrow> \<not> inherited store \<Longrightarrow> invalidate store key s = (Inr False, s)"
  by (simp add: invalidate_def lookup_store_def)

lemma invalidate_removes:
  assumes "map_of (stores s) store = Some st" "map_of (cached st) key = Some e"
    "invalidationPolicy (policy st) \<noteq> Value Never"
  shows "invalidate store key s = (Inr True, produce (delete_entry store key s))"
  using assms by (simp add: invalidate_def lookup_store_def found_def)

text \<open>
  For a key that is only inherited the test \<^verbatim>\<open>!storeInstance.cached[key]\<close>
  of lines 249-262 finds a function, and the call returns true with nothing to
  remove.
\<close>

lemma invalidate_inherited_key:
  "lookup_entry empty_store_state ''s'' ''toString'' = None
   \<and> fst (invalidate ''s'' ''toString'' empty_store_state) = Inr True
   \<and> stores (snd (invalidate ''s'' ''toString'' empty_store_state)) = stores empty_store_state"
  by (simp add: empty_store_state_def operation_defs)

lemma invalidate_absent_key:
  "invalidate ''s'' ''k'' empty_store_state = (Inr False, empty_store_state)"
  by (simp add: empty_store_state_def operation_defs)

text \<open>
  C2. \<^verbatim>\<open>invalidate(store, key)\<close> is to return false and leave the state
  unchanged when the key is absent from the store. The \<^verbatim>\<open>invalidate\<close> of
  lines 52-58 has no test for the key: on the store \<^verbatim>\<open>"s"\<close> with no
  entries, \<^verbatim>\<open>invalidate("s", "k")\<close> returns true; the state is unchanged.
\<close>

theorem invalidate_inplace_absent_key:
  "map_of (stores empty_store_state) ''s''
     = Some \<lparr> cached = [],
              policy = \<lparr> invalidationPolicy = Value OnExpiry, expiry = Value (60 * 60 * 1000),
                         pruneOnSessionStart = Value True \<rparr> \<rparr>
   \<and> lookup_entry empty_store_state ''s'' ''k'' = None
   \<and> invalidate_inplace ''s'' ''k'' empty_store_state = (Inr True, empty_store_state)"
  by (simp add: empty_store_state_def operation_defs)

section \<open>Stores with the policy never\<close>

lemma prune_keeps_never:
  assumes "map_of (stores s) n = Some st" "invalidationPolicy (policy st) = Value Never"
  shows "map_of (stores (snd (prune now m k s))) n = Some st"
    and "map_of (stores (snd (prune_inplace now m k s))) n = Some st"
  using assms
  by (cases "m = n";
      auto simp: prune_def prune_inplace_def lookup_store_def delete_entry_other produce_frame
           split: option.splits)+

lemma pruneAll_keeps_never:
  assumes "map_of (stores s) n = Some st" "invalidationPolicy (policy st) = Value Never"
  shows "map_of (stores (snd (pruneAll now m s))) n = Some st"
    and "map_of (stores (snd (pruneAll_inplace now m s))) n = Some st"
proof -
  have a: "map_of (stores (snd (for_each (\<lambda>key. prune now m key) ks s))) n = Some st" for ks
    by (rule for_each_invariant [where P = "\<lambda>t. map_of (stores t) n = Some st"])
       (simp_all add: assms prune_keeps_never)
  have b: "map_of (stores (snd (for_each (\<lambda>key. prune_inplace now m key) ks s))) n = Some st"
    for ks
    by (rule for_each_invariant [where P = "\<lambda>t. map_of (stores t) n = Some st"])
       (simp_all add: assms prune_keeps_never)
  show "map_of (stores (snd (pruneAll now m s))) n = Some st"
    using assms(1) a by (simp add: pruneAll_def split: lookup.splits)
  show "map_of (stores (snd (pruneAll_inplace now m s))) n = Some st"
    using assms(1) b by (simp add: pruneAll_inplace_def split: lookup.splits)
qed

lemma pruneAllStores_keeps_never:
  assumes "map_of (stores s) n = Some st" "invalidationPolicy (policy st) = Value Never"
  shows "map_of (stores (snd (pruneAllStores now s))) n = Some st"
    and "map_of (stores (snd (pruneAllStores_inplace now s))) n = Some st"
proof -
  show "map_of (stores (snd (pruneAllStores now s))) n = Some st"
    unfolding pruneAllStores_def
    by (rule for_each_invariant [where P = "\<lambda>t. map_of (stores t) n = Some st"])
       (simp_all add: assms pruneAll_keeps_never)
  show "map_of (stores (snd (pruneAllStores_inplace now s))) n = Some st"
    unfolding pruneAllStores_inplace_def
    by (rule for_each_invariant [where P = "\<lambda>t. map_of (stores t) n = Some st"])
       (simp_all add: assms pruneAll_keeps_never)
qed

lemma invalidate_keeps_never:
  assumes "map_of (stores s) n = Some st" "invalidationPolicy (policy st) = Value Never"
  shows "map_of (stores (snd (invalidate m k s))) n = Some st"
    and "map_of (stores (snd (invalidate_inplace m k s))) n = Some st"
    and "map_of (stores (snd (invalidateIfExpired now m k s))) n = Some st"
  using assms
  by (cases "m = n";
      auto simp: invalidate_def invalidate_inplace_def invalidateIfExpired_def lookup_store_def
             delete_entry_other produce_frame
           split: option.splits)+

lemma invalidateAll_keeps_never:
  assumes "map_of (stores s) n = Some st" "invalidationPolicy (policy st) = Value Never"
  shows "map_of (stores (snd (invalidateAll m s))) n = Some st"
    and "map_of (stores (snd (invalidateAllOrThrow m s))) n = Some st"
  using assms
  by (cases "m = n";
      auto simp: invalidateAll_def invalidateAllOrThrow_def lookup_store_def map_of_modify_store
           split: option.splits)+

text \<open>
  C5. A store \<open>n\<close> whose policy is \<^verbatim>\<open>never\<close> is the same store, with the
  same entries, after any one of \<^verbatim>\<open>invalidate\<close>,
  \<^verbatim>\<open>invalidateIfExpired\<close>, \<^verbatim>\<open>invalidateAll\<close>,
  \<^verbatim>\<open>invalidateAllOrThrow\<close>, \<^verbatim>\<open>prune\<close>, \<^verbatim>\<open>pruneAll\<close> and
  \<^verbatim>\<open>pruneAllStores\<close>, of either revision, whatever store \<open>m\<close>, key \<open>k\<close> and
  time \<open>now\<close> the operation is called with, and whether the call returns or
  throws.
\<close>

theorem never_store_keeps_entries:
  assumes "map_of (stores s) n = Some st"
    and "invalidationPolicy (policy st) = Value Never"
  shows "map_of (stores (snd (invalidate m k s))) n = Some st
       \<and> map_of (stores (snd (invalidate_inplace m k s))) n = Some st
       \<and> map_of (stores (snd (invalidateIfExpired now m k s))) n = Some st
       \<and> map_of (stores (snd (invalidateAll m s))) n = Some st
       \<and> map_of (stores (snd (invalidateAllOrThrow m s))) n = Some st
       \<and> map_of (stores (snd (prune now m k s))) n = Some st
       \<and> map_of (stores (snd (pruneAll now m s))) n = Some st
       \<and> map_of (stores (snd (pruneAllStores now s))) n = Some st
       \<and> map_of (stores (snd (prune_inplace now m k s))) n = Some st
       \<and> map_of (stores (snd (pruneAll_inplace now m s))) n = Some st
       \<and> map_of (stores (snd (pruneAllStores_inplace now s))) n = Some st"
  using assms
  by (intro conjI invalidate_keeps_never invalidateAll_keeps_never prune_keeps_never
        pruneAll_keeps_never pruneAllStores_keeps_never)

theorem never_store_keeps_entries_witness:
  "map_of (stores never_state) ''n'' = Some never_store
   \<and> invalidationPolicy (policy never_store) = Value Never
   \<and> cached never_store = [(''k'', \<lparr> val = JNum 1, assignedAt = 0 \<rparr>)]
   \<and> map_of (stores (snd (invalidate ''n'' ''k'' never_state))) ''n'' = Some never_store
   \<and> map_of (stores (snd (invalidateAll ''n'' never_state))) ''n'' = Some never_store
   \<and> map_of (stores (snd (prune 99999999 ''n'' ''k'' never_state))) ''n'' = Some never_store
   \<and> map_of (stores (snd (pruneAllStores 99999999 never_state))) ''n'' = Some never_store"
proof -
  have h1: "map_of (stores never_state) ''n'' = Some never_store"
    by (simp add: never_state_eq)
  have h2: "invalidationPolicy (policy never_store) = Value Never"
    by (simp add: never_store_def)
  have h3: "cached never_store = [(''k'', \<lparr> val = JNum 1, assignedAt = 0 \<rparr>)]"
    by (simp add: never_store_def)
  from never_store_keeps_entries [OF h1 h2, of "''n''" "''k''" 99999999] h1 h2 h3
  show ?thesis by simp
qed

section \<open>Clearing whole stores\<close>

text \<open>
  \<^verbatim>\<open>invalidateAllOrThrow\<close> throws its own two errors for a missing store and
  for the policy \<^verbatim>\<open>never\<close>. For another store of the state it clears the
  store when the state is not frozen, and throws \<^verbatim>\<open>TypeError\<close> with the
  entries kept when it is.
\<close>

lemma invalidateAllOrThrow_refuses:
  "map_of (stores s) store = None \<Longrightarrow> \<not> inherited store
     \<Longrightarrow> invalidateAllOrThrow store s = (Inl (StoreDoesNotExist store), s)"
  "map_of (stores s) store = Some st \<Longrightarrow> invalidationPolicy (policy st) = Value Never
     \<Longrightarrow> invalidateAllOrThrow store s = (Inl (PolicyIsNever store), s)"
  by (simp_all add: invalidateAllOrThrow_def lookup_store_def)

lemma invalidateAllOrThrow_clears_or_throws:
  assumes "map_of (stores s) store = Some st" "invalidationPolicy (policy st) \<noteq> Value Never"
  shows "invalidateAllOrThrow store s =
           (if frozen s then (Inl TypeError, s) else (Inr (), modify_store store clear_store s))"
  using assms by (simp add: invalidateAllOrThrow_def lookup_store_def)

text \<open>
  C8. \<^verbatim>\<open>invalidateAllOrThrow(store)\<close> is to remove all entries of an
  existing store whose policy is \<^verbatim>\<open>always\<close> or \<^verbatim>\<open>on-expiry\<close> and to
  return normally. The store \<^verbatim>\<open>"s"\<close> of the example state has the policy
  \<^verbatim>\<open>on-expiry\<close>; it was written by \<^verbatim>\<open>createStore\<close> and
  \<^verbatim>\<open>setValue\<close>, so it is frozen, and the assignment
  \<^verbatim>\<open>storeInstance.cached = {}\<close> throws \<^verbatim>\<open>TypeError\<close>: the entry stays.
\<close>

theorem invalidateAllOrThrow_throws_on_frozen_store:
  "frozen expiry_1000_state
   \<and> map_of (stores expiry_1000_state) ''s'' = Some expiry_1000_store
   \<and> invalidationPolicy (policy expiry_1000_store) = Value OnExpiry
   \<and> invalidateAllOrThrow ''s'' expiry_1000_state = (Inl TypeError, expiry_1000_state)
   \<and> lookup_entry (snd (invalidateAllOrThrow ''s'' expiry_1000_state)) ''s'' ''k''
       = Some \<lparr> val = JNum 42, assignedAt = 0 \<rparr>"
  by (simp add: expiry_1000_state_eq expiry_1000_store_def operation_defs)

lemma clear_store_idem: "clear_store (clear_store st) = clear_store st"
  by (simp add: clear_store_def)

lemma fold_clear_lookup:
  "map_of (stores (fold (\<lambda>store. modify_store store clear_store) ks s)) n =
     (if n \<in> set ks then map_option clear_store (map_of (stores s) n) else map_of (stores s) n)"
proof (induction ks arbitrary: s)
  case Nil
  then show ?case by simp
next
  case (Cons k ks)
  show ?case
    by (cases "map_of (stores s) n")
       (auto simp: Cons.IH map_of_modify_store clear_store_idem)
qed

lemma for_each_clear_one_not_frozen:
  "\<not> frozen s \<Longrightarrow>
     for_each clear_one ks s = (Inr (), fold (\<lambda>store. modify_store store clear_store) ks s)"
  by (induction ks arbitrary: s) (simp_all add: clear_one_def modify_store_frame)

text \<open>
  On a state that is not frozen \<^verbatim>\<open>invalidateAllStores\<close> clears every
  store, whatever its policy; on a frozen state with a store it throws at the
  first store and clears nothing.
\<close>

lemma invalidateAllStores_not_frozen:
  assumes "\<not> frozen s"
  shows "fst (invalidateAllStores s) = Inr ()"
    and "map_of (stores (snd (invalidateAllStores s))) n
           = map_option clear_store (map_of (stores s) n)"
proof -
  show "fst (invalidateAllStores s) = Inr ()"
    using assms by (simp add: invalidateAllStores_def for_each_clear_one_not_frozen)
  show "map_of (stores (snd (invalidateAllStores s))) n
           = map_option clear_store (map_of (stores s) n)"
  proof (cases "map_of (stores s) n")
    case None
    then show ?thesis
      using assms
      by (simp add: invalidateAllStores_def for_each_clear_one_not_frozen fold_clear_lookup)
  next
    case (Some st)
    then have "n \<in> set (map fst (stores s))"
      by (metis map_of_eq_None_iff option.distinct(1) set_map)
    then show ?thesis
      using assms
      by (simp add: invalidateAllStores_def for_each_clear_one_not_frozen fold_clear_lookup)
  qed
qed

lemma invalidateAllStores_frozen:
  assumes "frozen s" "stores s \<noteq> []"
  shows "invalidateAllStores s = (Inl TypeError, s)"
proof -
  obtain p ps where "stores s = p # ps"
    using assms(2) by (cases "stores s") auto
  then show ?thesis
    using assms(1) by (simp add: invalidateAllStores_def clear_one_def)
qed

text \<open>
  C9. \<^verbatim>\<open>invalidateAllStores()\<close> is to remove every entry from every store,
  also from a store whose policy is \<^verbatim>\<open>never\<close>. The loop makes no test of the
  policy, but it assigns \<^verbatim>\<open>stores[store].cached = {}\<close> directly: in the two
  example states, written through the module's own operations and so frozen,
  the call throws \<^verbatim>\<open>TypeError\<close> at the first store and every entry stays.
\<close>

theorem invalidateAllStores_throws_on_frozen_state:
  "frozen never_state
   \<and> invalidateAllStores never_state = (Inl TypeError, never_state)
   \<and> lookup_entry (snd (invalidateAllStores never_state)) ''n'' ''k''
       = Some \<lparr> val = JNum 1, assignedAt = 0 \<rparr>
   \<and> frozen expiry_1000_state
   \<and> invalidateAllStores expiry_1000_state = (Inl TypeError, expiry_1000_state)
   \<and> lookup_entry (snd (invalidateAllStores expiry_1000_state)) ''s'' ''k''
       = Some \<lparr> val = JNum 42, assignedAt = 0 \<rparr>"
  by (simp add: never_state_eq never_store_def expiry_1000_state_eq expiry_1000_store_def
        operation_defs)

section \<open>Reading values and the counters\<close>

lemma setValue_lookup:
  assumes "\<not> inherited store" "key \<noteq> ''__proto__''"
  shows "fst (setValue now store key v s) = Inr ()"
    and "lookup_entry (snd (setValue now store key v s)) store key
           = Some \<lparr> val = v, assignedAt = now \<rparr>"
    and "debugStatistics (snd (setValue now store key v s)) = debugStatistics s"
  using assms
  by (auto simp: setValue_def write_entry_def lookup_entry_def createStore_def lookup_store_def
        map_of_modify_store modify_store_frame produce_frame AList.update_conv'
        split: option.splits)

text \<open>
  A read of a key that is present returns its value, whatever the clock says,
  and counts a hit when the value is truthy and a miss when it is not.
\<close>

lemma getValue_present:
  assumes "lookup_entry s store key = Some e"
  shows "fst (getValue now store key s) = Inr (val e)"
    and "debugStatistics (snd (getValue now store key s)) =
          (if truthy (val e)
           then (debugStatistics s)\<lparr> hits := hits (debugStatistics s) + 1 \<rparr>
           else (debugStatistics s)\<lparr> misses := misses (debugStatistics s) + 1 \<rparr>)"
proof -
  obtain st where st: "map_of (stores s) store = Some st" "map_of (cached st) key = Some e"
    using assms by (auto simp: lookup_entry_def split: option.splits)
  obtain s1 where s1: "prune now store key s = (Inr (), s1)"
    using prune_own_returns [OF st(1), of now key] by (cases "prune now store key s") auto
  have stats: "debugStatistics s1 = debugStatistics s"
    using prune_frame(2) [of now store key s] s1 by simp
  show "fst (getValue now store key s) = Inr (val e)"
    using st s1 by (simp add: getValue_def lookup_store_def Let_def)
  show "debugStatistics (snd (getValue now store key s)) =
          (if truthy (val e)
           then (debugStatistics s)\<lparr> hits := hits (debugStatistics s) + 1 \<rparr>
           else (debugStatistics s)\<lparr> misses := misses (debugStatistics s) + 1 \<rparr>)"
    using st s1 stats
    by (simp add: getValue_def lookup_store_def Let_def incrementHits_def incrementMisses_def
          produce_frame)
qed

lemma setValue_then_getValue:
  assumes "\<not> inherited store" "key \<noteq> ''__proto__''"
  shows "fst (getValue now' store key (snd (setValue now store key v s))) = Inr v"
    and "debugStatistics (snd (getValue now' store key (snd (setValue now store key v s)))) =
     (if truthy v
      then (debugStatistics s)\<lparr> hits := hits (debugStatistics s) + 1 \<rparr>
      else (debugStatistics s)\<lparr> misses := misses (debugStatistics s) + 1 \<rparr>)"
  using getValue_present [OF setValue_lookup(2) [OF assms], where now = now']
  by (simp_all add: setValue_lookup(3) [OF assms])

text \<open>
  C1. With the global expiry 1000, the store \<^verbatim>\<open>"s"\<close> inheriting it and
  \<^verbatim>\<open>setValue("s", "k", 42)\<close> at time 0, the read at time 500 returns 42 and
  counts a hit. The read at time 1500 is to return absent and count a miss, and
  the entry is to be gone. In the code the entry is gone from the state, but
  the read returns 42 and counts a second hit: the value is taken from the
  store object read before \<^verbatim>\<open>prune\<close> replaced the state.
\<close>

theorem getValue_after_expiry_returns_the_pruned_value:
  "fst (getValue 500 ''s'' ''k'' expiry_1000_state) = Inr (JNum 42)
   \<and> debugStatistics after_first_read = \<lparr> hits = 1, misses = 0, invalidationsDueToExpiry = 0 \<rparr>
   \<and> fst (getValue 1500 ''s'' ''k'' after_first_read) = Inr (JNum 42)
   \<and> debugStatistics (snd (getValue 1500 ''s'' ''k'' after_first_read))
       = \<lparr> hits = 2, misses = 0, invalidationsDueToExpiry = 0 \<rparr>
   \<and> lookup_entry (snd (getValue 1500 ''s'' ''k'' after_first_read)) ''s'' ''k'' = None"
  by (simp add: after_first_read_def expiry_1000_state_eq expiry_1000_store_def operation_defs)

text \<open>
  C4, as stated: every \<^verbatim>\<open>getValue\<close>, also one against a store name that
  does not exist yet, adds one to exactly one of the two counters. Against the
  missing store \<^verbatim>\<open>"s"\<close> of the initial state the call returns
  \<^verbatim>\<open>null\<close> and changes neither counter.
\<close>

theorem getValue_missing_store_counts_nothing:
  "map_of (stores initialState) ''s'' = None
   \<and> fst (getValue 0 ''s'' ''k'' initialState) = Inr JNull
   \<and> \<not> ((hits (debugStatistics (snd (getValue 0 ''s'' ''k'' initialState)))
            = hits (debugStatistics initialState) + 1
          \<and> misses (debugStatistics (snd (getValue 0 ''s'' ''k'' initialState)))
            = misses (debugStatistics initialState))
        \<or> (hits (debugStatistics (snd (getValue 0 ''s'' ''k'' initialState)))
            = hits (debugStatistics initialState)
          \<and> misses (debugStatistics (snd (getValue 0 ''s'' ''k'' initialState)))
            = misses (debugStatistics initialState) + 1))"
  by (simp add: operation_defs)

text \<open>
  A store name that is only inherited from \<^verbatim>\<open>Object.prototype\<close> is neither
  created nor read: \<^verbatim>\<open>getValue\<close> throws and changes nothing.
\<close>

lemma getValue_inherited_store:
  "map_of (stores s) store = None \<Longrightarrow> inherited store
     \<Longrightarrow> getValue now store key s = (Inl TypeError, s)"
  by (simp add: getValue_def lookup_store_def)

text \<open>
  C4, amended. A \<^verbatim>\<open>getValue\<close> against a store that exists adds one to
  exactly one of \<^verbatim>\<open>hits\<close> and \<^verbatim>\<open>misses\<close> and leaves the other as it
  was. A \<^verbatim>\<open>getValue\<close> against a store name that does not exist, and is not
  the name of a property of \<^verbatim>\<open>Object.prototype\<close>, creates the store with
  the global policy, returns \<^verbatim>\<open>null\<close> and changes no counter.
\<close>

theorem getValue_counts_once_on_existing_store:
  "(map_of (stores s) store \<noteq> None \<longrightarrow>
      (hits (debugStatistics (snd (getValue now store key s))) = hits (debugStatistics s) + 1
       \<and> misses (debugStatistics (snd (getValue now store key s))) = misses (debugStatistics s))
      \<or> (hits (debugStatistics (snd (getValue now store key s))) = hits (debugStatistics s)
       \<and> misses (debugStatistics (snd (getValue now store key s)))
           = misses (debugStatistics s) + 1))
   \<and> (map_of (stores s) store = None \<and> \<not> inherited store \<longrightarrow>
        debugStatistics (snd (getValue now store key s)) = debugStatistics s
        \<and> fst (getValue now store key s) = Inr JNull
        \<and> map_of (stores (snd (getValue now store key s))) store
            = Some \<lparr> cached = [], policy = globalPolicy s \<rparr>)"
proof (cases "map_of (stores s) store")
  case None
  then show ?thesis
    by (simp add: getValue_def createStore_def lookup_store_def produce_frame
          AList.update_conv' spread_def emptyPolicy_def)
next
  case (Some st)
  obtain s1 where s1: "prune now store key s = (Inr (), s1)"
    using prune_own_returns [OF Some, of now key] by (cases "prune now store key s") auto
  have stats: "debugStatistics s1 = debugStatistics s"
    using prune_frame(2) [of now store key s] s1 by simp
  show ?thesis
  proof (cases "truthy (case map_of (cached st) key of None \<Rightarrow> JUndefined | Some e \<Rightarrow> val e)")
    case True
    with Some s1 stats show ?thesis
      by (simp add: getValue_def lookup_store_def incrementHits_def produce_frame)
  next
    case False
    with Some s1 stats show ?thesis
      by (simp add: getValue_def lookup_store_def incrementMisses_def produce_frame)
  qed
qed

theorem getValue_counts_once_on_existing_store_witness:
  "map_of (stores expiry_1000_state) ''s'' \<noteq> None
   \<and> hits (debugStatistics (snd (getValue 500 ''s'' ''k'' expiry_1000_state))) = 1
   \<and> misses (debugStatistics (snd (getValue 500 ''s'' ''k'' expiry_1000_state))) = 0
   \<and> hits (debugStatistics (snd (getValue 500 ''s'' ''absent'' expiry_1000_state))) = 0
   \<and> misses (debugStatistics (snd (getValue 500 ''s'' ''absent'' expiry_1000_state))) = 1
   \<and> map_of (stores initialState) ''s'' = None
   \<and> \<not> inherited ''s''
   \<and> debugStatistics (snd (getValue 500 ''s'' ''k'' initialState)) = debugStatistics initialState"
proof -
  have h1: "map_of (stores expiry_1000_state) ''s'' \<noteq> None"
    by (simp add: expiry_1000_state_eq)
  have h2: "map_of (stores initialState) ''s'' = None"
    by (simp add: initialState_def)
  have h3: "\<not> inherited ''s''"
    by (simp add: inherited_def prototype_names_def)
  have stats: "debugStatistics expiry_1000_state
               = \<lparr> hits = 0, misses = 0, invalidationsDueToExpiry = 0 \<rparr>"
    by (simp add: expiry_1000_state_eq)
  have a: "hits (debugStatistics (snd (getValue 500 ''s'' ''k'' expiry_1000_state))) = 1
     \<and> misses (debugStatistics (snd (getValue 500 ''s'' ''k'' expiry_1000_state))) = 0"
    using getValue_counts_once_on_existing_store [of expiry_1000_state "''s''" 500 "''k''"] h1
    by (simp add: expiry_1000_state_eq expiry_1000_store_def operation_defs)
  have b: "hits (debugStatistics (snd (getValue 500 ''s'' ''absent'' expiry_1000_state))) = 0
     \<and> misses (debugStatistics (snd (getValue 500 ''s'' ''absent'' expiry_1000_state))) = 1"
    by (simp add: expiry_1000_state_eq expiry_1000_store_def operation_defs)
  have c: "debugStatistics (snd (getValue 500 ''s'' ''k'' initialState))
            = debugStatistics initialState"
    using getValue_counts_once_on_existing_store [of initialState "''s''" 500 "''k''"] h2 h3
    by blast
  from h1 h2 h3 a b c show ?thesis by simp
qed

text \<open>
  C6. \<^verbatim>\<open>setValue(store, key, value)\<close> followed at once by
  \<^verbatim>\<open>getValue(store, key)\<close> is to return the value and count one hit and no
  miss, for every value. The value is returned (lemma
  \<open>setValue_then_getValue\<close>), but the counter is chosen by the truthiness of
  the value: with the value 0 the read counts a miss and no hit.
\<close>

theorem setValue_zero_then_getValue_counts_a_miss:
  "fst (setValue 0 ''s'' ''k'' (JNum 0) initialState) = Inr ()
   \<and> fst (getValue 0 ''s'' ''k'' (snd (setValue 0 ''s'' ''k'' (JNum 0) initialState)))
       = Inr (JNum 0)
   \<and> debugStatistics
       (snd (getValue 0 ''s'' ''k'' (snd (setValue 0 ''s'' ''k'' (JNum 0) initialState))))
       = \<lparr> hits = 0, misses = 1, invalidationsDueToExpiry = 0 \<rparr>"
  by (simp add: operation_defs)

section \<open>Policies and partial overrides\<close>

lemma complete_spread: "complete a \<Longrightarrow> defined_override b \<Longrightarrow> complete (spread a b)"
  by (cases "invalidationPolicy b"; cases "expiry b"; cases "pruneOnSessionStart b")
     (simp_all add: complete_def defined_override_def spread_def)

lemma defined_emptyPolicy: "defined_override emptyPolicy"
  by (simp add: defined_override_def emptyPolicy_def)

lemma complete_map_entry:
  "list_all (\<lambda>p. complete (policy (snd p))) xs
     \<Longrightarrow> (\<And>st. complete (policy st) \<Longrightarrow> complete (policy (f st)))
     \<Longrightarrow> list_all (\<lambda>p. complete (policy (snd p))) (AList.map_entry k f xs)"
  by (induction xs) auto

lemma complete_update:
  "list_all (\<lambda>p. complete (policy (snd p))) xs \<Longrightarrow> complete (policy st)
     \<Longrightarrow> list_all (\<lambda>p. complete (policy (snd p))) (AList.update k st xs)"
  by (induction xs) auto

lemma pc_produce: "policies_complete (produce s) = policies_complete s"
  by (simp add: policies_complete_def produce_frame)

lemma pc_modify_store:
  "policies_complete s \<Longrightarrow> (\<And>st. complete (policy st) \<Longrightarrow> complete (policy (f st)))
     \<Longrightarrow> policies_complete (modify_store n f s)"
  by (simp add: policies_complete_def modify_store_def complete_map_entry)

lemma pc_delete_entry: "policies_complete s \<Longrightarrow> policies_complete (delete_entry n k s)"
  by (simp add: delete_entry_def pc_modify_store)

lemma pc_clear: "policies_complete s \<Longrightarrow> policies_complete (modify_store n clear_store s)"
  by (simp add: pc_modify_store clear_store_def)

lemma pc_prune:
  assumes "policies_complete s"
  shows "policies_complete (snd (prune now n k s))"
    and "policies_complete (snd (prune_inplace now n k s))"
  using assms
  by (simp_all add: prune_def prune_inplace_def pc_delete_entry pc_produce
        split: option.splits lookup.splits)

lemma pc_pruneAll:
  assumes "policies_complete s"
  shows "policies_complete (snd (pruneAll now n s))"
    and "policies_complete (snd (pruneAll_inplace now n s))"
proof -
  have a: "policies_complete (snd (for_each (\<lambda>key. prune now n key) ks s))" for ks
    by (rule for_each_invariant [where P = policies_complete]) (simp_all add: assms pc_prune)
  have b: "policies_complete (snd (for_each (\<lambda>key. prune_inplace now n key) ks s))" for ks
    by (rule for_each_invariant [where P = policies_complete]) (simp_all add: assms pc_prune)
  show "policies_complete (snd (pruneAll now n s))"
    using assms a by (simp add: pruneAll_def split: lookup.splits)
  show "policies_complete (snd (pruneAll_inplace now n s))"
    using assms b by (simp add: pruneAll_inplace_def split: lookup.splits)
qed

lemma pc_pruneAllStores:
  assumes "policies_complete s"
  shows "policies_complete (snd (pruneAllStores now s))"
    and "policies_complete (snd (pruneAllStores_inplace now s))"
proof -
  show "policies_complete (snd (pruneAllStores now s))"
    unfolding pruneAllStores_def
    by (rule for_each_invariant [where P = policies_complete]) (simp_all add: assms pc_pruneAll)
  show "policies_complete (snd (pruneAllStores_inplace now s))"
    unfolding pruneAllStores_inplace_def
    by (rule for_each_invariant [where P = policies_complete]) (simp_all add: assms pc_pruneAll)
qed

lemma pc_invalidateAllStores:
  assumes "policies_complete s"
  shows "policies_complete (snd (invalidateAllStores s))"
  unfolding invalidateAllStores_def
  by (rule for_each_invariant [where P = policies_complete])
     (simp_all add: assms clear_one_def pc_clear)

lemma pc_invalidate:
  assumes "policies_complete s"
  shows "policies_complete (snd (invalidate n k s))"
    and "policies_complete (snd (invalidate_inplace n k s))"
    and "policies_complete (snd (invalidateIfExpired now n k s))"
    and "policies_complete (snd (invalidateAll n s))"
    and "policies_complete (snd (invalidateAllOrThrow n s))"
  using assms
  by (simp_all add: invalidate_def invalidate_inplace_def invalidateIfExpired_def
        invalidateAll_def invalidateAllOrThrow_def pc_delete_entry pc_clear pc_produce
        split: option.splits lookup.splits)

lemma pc_createStore:
  "policies_complete s \<Longrightarrow> defined_override pol \<Longrightarrow> policies_complete (createStore n pol s)"
  by (simp add: createStore_def policies_complete_def produce_frame complete_update
        complete_spread split: lookup.splits)

lemma pc_counters:
  "policies_complete s \<Longrightarrow> policies_complete (incrementHits s)"
  "policies_complete s \<Longrightarrow> policies_complete (incrementMisses s)"
  by (simp_all add: policies_complete_def incrementHits_def incrementMisses_def produce_frame)

lemma pc_getValue:
  assumes "policies_complete s"
  shows "policies_complete (snd (getValue now n k s))"
    and "policies_complete (snd (getValue_inplace now n k s))"
proof -
  have p: "policies_complete (snd (prune now n k s))"
    and q: "policies_complete (snd (prune_inplace now n k s))"
    using assms by (simp_all add: pc_prune)
  show "policies_complete (snd (getValue now n k s))"
    using assms p
    by (cases "prune now n k s")
       (auto simp: getValue_def Let_def pc_createStore defined_emptyPolicy pc_counters
          split: lookup.splits sum.splits)
  show "policies_complete (snd (getValue_inplace now n k s))"
    using assms q
    by (cases "prune_inplace now n k s")
       (auto simp: getValue_inplace_def pc_createStore defined_emptyPolicy
          split: lookup.splits sum.splits option.splits)
qed

lemma pc_write_entry: "policies_complete s \<Longrightarrow> policies_complete (snd (write_entry now n k v s))"
  by (simp add: write_entry_def pc_produce pc_modify_store)

lemma pc_setValue: "policies_complete s \<Longrightarrow> policies_complete (snd (setValue now n k v s))"
  by (simp add: setValue_def pc_write_entry pc_createStore defined_emptyPolicy
        split: lookup.splits)

lemma pc_setGlobalPolicy:
  "policies_complete s \<Longrightarrow> defined_override pol \<Longrightarrow> policies_complete (setGlobalPolicy pol s)"
  by (simp add: setGlobalPolicy_def policies_complete_def produce_frame complete_spread)

lemma pc_setStorePolicy:
  "policies_complete s \<Longrightarrow> defined_override pol
     \<Longrightarrow> policies_complete (snd (setStorePolicy n pol s))"
  by (simp add: setStorePolicy_def pc_produce pc_modify_store complete_spread
        split: lookup.splits)

text \<open>Which calls the embedding follows.\<close>

lemma prune_modelled:
  "fst (prune now n k s) \<noteq> Inl NotModelled"
  "fst (prune_inplace now n k s) \<noteq> Inl NotModelled"
  by (simp_all add: prune_def prune_inplace_def split: lookup.splits option.splits)

lemma pruneAll_modelled:
  "fst (pruneAll now n s) \<noteq> Inl NotModelled"
  "fst (pruneAll_inplace now n s) \<noteq> Inl NotModelled"
  by (simp_all add: pruneAll_def pruneAll_inplace_def for_each_error prune_modelled
        split: lookup.splits)

lemma pruneAllStores_modelled:
  "fst (pruneAllStores now s) \<noteq> Inl NotModelled"
  "fst (pruneAllStores_inplace now s) \<noteq> Inl NotModelled"
  by (simp_all add: pruneAllStores_def pruneAllStores_inplace_def for_each_error
        pruneAll_modelled)

lemma invalidate_modelled:
  "fst (invalidate n k s) \<noteq> Inl NotModelled"
  "fst (invalidate_inplace n k s) \<noteq> Inl NotModelled"
  "fst (invalidateIfExpired now n k s) \<noteq> Inl NotModelled"
  "fst (invalidateAll n s) \<noteq> Inl NotModelled"
  "fst (invalidateAllOrThrow n s) \<noteq> Inl NotModelled"
  "fst (invalidateAllStores s) \<noteq> Inl NotModelled"
  by (simp_all add: invalidate_def invalidate_inplace_def invalidateIfExpired_def
        invalidateAll_def invalidateAllOrThrow_def invalidateAllStores_def for_each_error
        clear_one_def split: lookup.splits option.splits)

lemma getValue_modelled:
  "fst (getValue now n k s) \<noteq> Inl NotModelled"
  "fst (getValue_inplace now n k s) \<noteq> Inl NotModelled"
proof -
  show "fst (getValue now n k s) \<noteq> Inl NotModelled"
    using prune_modelled(1) [of now n k s]
    by (cases "prune now n k s")
       (auto simp: getValue_def Let_def split: lookup.splits sum.splits)
  show "fst (getValue_inplace now n k s) \<noteq> Inl NotModelled"
    using prune_modelled(2) [of now n k s]
    by (cases "prune_inplace now n k s")
       (auto simp: getValue_inplace_def split: lookup.splits sum.splits option.splits)
qed

lemma setValue_modelled: "k \<noteq> ''__proto__'' \<Longrightarrow> fst (setValue now n k v s) \<noteq> Inl NotModelled"
  by (simp add: setValue_def write_entry_def split: lookup.splits)

lemma setStorePolicy_modelled:
  "\<not> inherited n \<Longrightarrow> fst (setStorePolicy n pol s) \<noteq> Inl NotModelled"
  by (simp add: setStorePolicy_def lookup_store_def split: option.splits)

lemma settled_Some: "fst r \<noteq> Inl NotModelled \<Longrightarrow> settled r = Some (snd r)"
  by (simp add: settled_def)

lemma pc_perform:
  assumes "policies_complete s" "plain_call call"
  shows "\<exists>s'. perform now call s = Some s' \<and> policies_complete s'"
  using assms
  by (cases call)
     (simp_all add: settled_Some invalidate_modelled prune_modelled pruneAll_modelled
        pruneAllStores_modelled getValue_modelled setValue_modelled setStorePolicy_modelled
        pc_invalidate pc_invalidateAllStores pc_prune pc_pruneAll pc_pruneAllStores
        pc_getValue pc_createStore pc_setValue pc_setGlobalPolicy pc_setStorePolicy pc_counters)

lemma pc_run:
  assumes "list_all (\<lambda>c. plain_call (snd c)) calls" "policies_complete s"
  shows "\<exists>s'. run calls s = Some s' \<and> policies_complete s'"
  using assms
proof (induction calls arbitrary: s)
  case Nil
  then show ?case by simp
next
  case (Cons c calls)
  then obtain s1 where s1: "perform (fst c) (snd c) s = Some s1" "policies_complete s1"
    using pc_perform [of s "snd c" "fst c"] by auto
  then show ?case using Cons.IH [of s1] Cons.prems(1) by simp
qed

lemma pc_initialState: "policies_complete initialState"
  by (simp add: policies_complete_def initialState_def complete_def)

lemma pc_lookup:
  "policies_complete s \<Longrightarrow> map_of (stores s) n = Some st \<Longrightarrow> complete (policy st)"
  by (auto simp: policies_complete_def list_all_iff dest!: map_of_SomeD)

text \<open>
  C10, as stated: after any sequence of public operations every policy has
  all three fields defined, as no partial override can leave one missing. The
  override \<^verbatim>\<open>{expiry: undefined}\<close> is a \<^verbatim>\<open>Partial<Policy>\<close>, and the
  spread copies its property: after \<^verbatim>\<open>createStore("s", {expiry: undefined})\<close>
  the policy of \<^verbatim>\<open>"s"\<close> has no expiry, and after
  \<^verbatim>\<open>setGlobalPolicy({expiry: undefined})\<close> the global policy has none.
\<close>

theorem undefined_override_leaves_policy_incomplete:
  "run [(0, CreateStore ''s'' undefined_expiry)] initialState
     = Some (createStore ''s'' undefined_expiry initialState)
   \<and> map_of (stores (createStore ''s'' undefined_expiry initialState)) ''s''
       = Some \<lparr> cached = [],
                policy = \<lparr> invalidationPolicy = Value OnExpiry, expiry = Undefined,
                           pruneOnSessionStart = Value True \<rparr> \<rparr>
   \<and> \<not> complete \<lparr> invalidationPolicy = Value OnExpiry, expiry = Undefined,
                   pruneOnSessionStart = Value True \<rparr>
   \<and> run [(0, SetGlobalPolicy undefined_expiry)] initialState
       = Some (setGlobalPolicy undefined_expiry initialState)
   \<and> \<not> complete (globalPolicy (setGlobalPolicy undefined_expiry initialState))"
  by (simp add: undefined_expiry_def complete_def operation_defs)

text \<open>
  C10, amended. After any sequence of calls of the public operations, started
  in the initial state, in which no policy override has a property holding
  \<^verbatim>\<open>undefined\<close>, the global policy has all three fields defined, and so has
  the policy of every store: \<^verbatim>\<open>createStore\<close> spreads the override over the
  global policy, \<^verbatim>\<open>setGlobalPolicy\<close> and \<^verbatim>\<open>setStorePolicy\<close> spread it over
  the policy of before, and no other operation writes a policy. The sequence
  is one the embedding follows: no \<^verbatim>\<open>setStorePolicy\<close> on a name inherited
  from \<^verbatim>\<open>Object.prototype\<close> and no \<^verbatim>\<open>setValue\<close> with the key
  \<^verbatim>\<open>"__proto__"\<close>.
\<close>

theorem policies_stay_complete:
  assumes "list_all (\<lambda>c. plain_call (snd c)) calls"
  shows "\<exists>s. run calls initialState = Some s
           \<and> complete (globalPolicy s)
           \<and> (\<forall>n st. map_of (stores s) n = Some st \<longrightarrow> complete (policy st))
           \<and> policies_complete s"
proof -
  obtain s where s: "run calls initialState = Some s" "policies_complete s"
    using pc_run [OF assms pc_initialState] by auto
  then show ?thesis
    by (auto simp: pc_lookup) (simp add: policies_complete_def)
qed

theorem policies_stay_complete_witness:
  "list_all (\<lambda>c. plain_call (snd c)) partial_override_run
   \<and> map_option (\<lambda>s. map_of (stores s) ''s'') (run partial_override_run initialState)
       = Some (Some \<lparr> cached = [],
                      policy = \<lparr> invalidationPolicy = Value Never, expiry = Value 1000,
                                 pruneOnSessionStart = Value False \<rparr> \<rparr>)
   \<and> complete \<lparr> invalidationPolicy = Value Never, expiry = Value 1000,
                 pruneOnSessionStart = Value False \<rparr>"
proof -
  have plain: "list_all (\<lambda>c. plain_call (snd c)) partial_override_run"
    by (simp add: partial_override_run_def defined_override_def emptyPolicy_def inherited_def
          prototype_names_def)
  have run_s: "map_option (\<lambda>s. map_of (stores s) ''s'') (run partial_override_run initialState)
       = Some (Some \<lparr> cached = [],
                      policy = \<lparr> invalidationPolicy = Value Never, expiry = Value 1000,
                                 pruneOnSessionStart = Value False \<rparr> \<rparr>)"
    by (simp add: partial_override_run_def settled_def operation_defs)
  obtain s where s: "run partial_override_run initialState = Some s"
    and all: "\<forall>n st. map_of (stores s) n = Some st \<longrightarrow> complete (policy st)"
    using policies_stay_complete [OF plain] by blast
  from run_s s have "map_of (stores s) ''s''
       = Some \<lparr> cached = [],
                policy = \<lparr> invalidationPolicy = Value Never, expiry = Value 1000,
                           pruneOnSessionStart = Value False \<rparr> \<rparr>"
    by simp
  with all have "complete (policy \<lparr> cached = [],
                policy = \<lparr> invalidationPolicy = Value Never, expiry = Value 1000,
                           pruneOnSessionStart = Value False \<rparr> \<rparr>)"
    by blast
  with plain run_s show ?thesis by simp
qed

section \<open>Statistics across a restart\<close>

lemma pruneAllStores_statistics:
  "debugStatistics (snd (pruneAllStores now s)) = debugStatistics s"
proof -
  have one: "debugStatistics (snd (pruneAll now m t)) = debugStatistics t" for m t
  proof (cases "lookup_store t m")
    case (Own st)
    have "debugStatistics (snd (for_each (\<lambda>key. prune now m key) ks t)) = debugStatistics t"
      for ks
      by (rule for_each_invariant [where P = "\<lambda>u. debugStatistics u = debugStatistics t"])
         (simp_all add: prune_frame)
    with Own show ?thesis by (simp add: pruneAll_def)
  qed (simp_all add: pruneAll_def)
  show ?thesis
    unfolding pruneAllStores_def
    by (rule for_each_invariant [where P = "\<lambda>u. debugStatistics u = debugStatistics s"])
       (simp_all add: one)
qed

text \<open>
  The callback prunes and does nothing else, and the stored record holds the
  counters: a restart gives back the counters of the state that was stored.
\<close>

lemma onFinishHydration_statistics:
  "onFinishHydration now (Some s) = Some s' \<Longrightarrow> debugStatistics s' = debugStatistics s"
  by (auto simp: onFinishHydration_def pruneAllStores_statistics split: if_splits)

lemma restart_statistics:
  "map_option debugStatistics (restart now s) = Some (debugStatistics s)"
  by (simp add: restart_def onFinishHydration_def hydrate_def serialize_def
        pruneAllStores_statistics)

text \<open>
  What hydration gives back: the same store names and entries, and the
  policies without the properties that held \<^verbatim>\<open>undefined\<close>.
\<close>

lemma hydrate_serialize:
  "stores (hydrate (Some (serialize s))) = map (\<lambda>p. (fst p, json_store (snd p))) (stores s)"
  "globalPolicy (hydrate (Some (serialize s))) = json_policy (globalPolicy s)"
  "debugStatistics (hydrate (Some (serialize s))) = debugStatistics s"
  by (simp_all add: hydrate_def serialize_def)


section \<open>A state read back from storage\<close>

text \<open>
  The operations that write through \<^verbatim>\<open>storeInstance\<close> do what their text
  says on a state that no producer has touched: the first example state as
  hydration gives it back.
\<close>

lemma direct_writes_on_reloaded_state:
  "\<not> frozen reloaded_state
   \<and> fst (invalidateAllOrThrow ''s'' reloaded_state) = Inr ()
   \<and> lookup_entry (snd (invalidateAllOrThrow ''s'' reloaded_state)) ''s'' ''k'' = None
   \<and> fst (invalidateAllStores reloaded_state) = Inr ()
   \<and> lookup_entry (snd (invalidateAllStores reloaded_state)) ''s'' ''k'' = None
   \<and> fst (prune_inplace 1500 ''s'' ''k'' reloaded_state) = Inr ()
   \<and> lookup_entry (snd (prune_inplace 1500 ''s'' ''k'' reloaded_state)) ''s'' ''k'' = None
   \<and> fst (getValue_inplace 1500 ''s'' ''k'' reloaded_state) = Inr JUndefined
   \<and> getValue_inplace 1500 ''s'' ''k'' expiry_1000_state = (Inl TypeError, expiry_1000_state)"
  by (simp add: reloaded_state_eq expiry_1000_state_eq expiry_1000_store_def operation_defs)

end
